theory Spec2Isabelle
  imports Complex_Main "HOL-Library.Word" "HOL-Library.Char_ord"
begin

section \<open>The cmd library: registry, parameter views and the processing loop\<close>

text \<open>
  A shallow embedding of \<^verbatim>\<open>cmd.cpp\<close> and \<^verbatim>\<open>cmd.h\<close>. The two process-wide
  statics (\<^verbatim>\<open>Cmds()\<close> and \<^verbatim>\<open>Information()\<close>) are one record that is passed
  explicitly; a function pointer is a value of an abstract type \<open>'f\<close> that a \<open>call\<close>
  function interprets; \<^verbatim>\<open>int\<close> and \<^verbatim>\<open>uint32_t\<close> are 32-bit words and
  \<^verbatim>\<open>uint64_t\<close>, \<^verbatim>\<open>size_t\<close> are 64-bit words.
\<close>

subsection \<open>Data\<close>

text \<open>\<^verbatim>\<open>struct Cmd\<close>: the descriptor stored for one command.\<close>

record 'f Cmd =
  fn :: 'f
  doc :: string
  param_count :: "32 word"
  halt_on_fail :: bool

text \<open>\<^verbatim>\<open>struct Info\<close>, initialised to \<^verbatim>\<open>{ "", "", 0 }\<close>.\<close>

record Info =
  app_name :: string
  version :: string
  longest_cmd :: "64 word"

text \<open>The two statics together. \<^verbatim>\<open>std::unordered_map\<close> is a finite map without order.\<close>

record 'f globals =
  Cmds :: "string \<rightharpoonup> 'f Cmd"
  Information :: Info

definition initial :: "'f globals" where
  "initial = \<lparr>Cmds = Map.empty, Information = \<lparr>app_name = [], version = [], longest_cmd = 0\<rparr>\<rparr>"

text \<open>\<^verbatim>\<open>Command\<close>: \<^verbatim>\<open>find\<close> in the map; \<open>None\<close> is the null pointer.\<close>

definition Command :: "'f globals \<Rightarrow> string \<Rightarrow> 'f Cmd option" where
  "Command g cmd_name = Cmds g cmd_name"

definition Init :: "string \<Rightarrow> string \<Rightarrow> 'f globals \<Rightarrow> 'f globals" where
  "Init an ver g = g\<lparr>Information := (Information g)\<lparr>app_name := an, version := ver\<rparr>\<rparr>"

subsection \<open>Register\<close>

text \<open>
  The test of line 103. A \<^verbatim>\<open>char\<close> above 127 is negative where \<^verbatim>\<open>char\<close> is signed
  and above \<^verbatim>\<open>'z'\<close> where it is unsigned: it is outside the three ranges either way, as
  it is in the order of \<^typ>\<open>char\<close> used here.
\<close>

definition is_alnum :: "char \<Rightarrow> bool" where
  "is_alnum c \<longleftrightarrow>
     (CHR ''a'' \<le> c \<and> c \<le> CHR ''z'') \<or> (CHR ''A'' \<le> c \<and> c \<le> CHR ''Z'')
     \<or> (CHR ''0'' \<le> c \<and> c \<le> CHR ''9'')"

text \<open>
  The loop of lines 102 to 106, which \<^verbatim>\<open>Register\<close> runs on its copy of the name: over
  the index \<open>i\<close>, updating the string in place.
\<close>

function sanitize_loop :: "nat \<Rightarrow> string \<Rightarrow> string" where
  "sanitize_loop i cmd =
     (if i < length cmd
      then sanitize_loop (i + 1) (if \<not> is_alnum (cmd ! i) then cmd[i := CHR ''-''] else cmd)
      else cmd)"
  by pat_completeness auto
termination
  by (relation "measure (\<lambda>(i, cmd). length cmd - i)") auto

definition sanitize :: "string \<Rightarrow> string" where
  "sanitize cmd_name = sanitize_loop 0 cmd_name"

text \<open>
  \<^verbatim>\<open>cmd.size()\<close> as a \<^verbatim>\<open>size_t\<close>. A \<^verbatim>\<open>std::string\<close> is shorter than \<open>2 ^ 63\<close>, a
  list need not be: the lemmas on \<^verbatim>\<open>longest_cmd\<close> below ask for names that fit.
\<close>

definition size_of :: "string \<Rightarrow> 64 word" where
  "size_of s = of_nat (length s)"

text \<open>
  \<^verbatim>\<open>Register\<close>, lines 99 to 110. The result is the returned flag and the statics after
  the call.
\<close>

definition Register ::
  "string \<Rightarrow> 'f \<Rightarrow> 32 word \<Rightarrow> string \<Rightarrow> bool \<Rightarrow> 'f globals \<Rightarrow> bool \<times> 'f globals" where
  "Register cmd_name f pc d hof g =
     (let cmd = sanitize cmd_name;
          cmds' = (Cmds g)(cmd \<mapsto> \<lparr>fn = f, doc = d, param_count = pc, halt_on_fail = hof\<rparr>);
          longest' = (if size_of cmd + 3 > longest_cmd (Information g)
                      then size_of cmd + 3 else longest_cmd (Information g))
      in (True, \<lparr>Cmds = cmds', Information = (Information g)\<lparr>longest_cmd := longest'\<rparr>\<rparr>))"

text \<open>One registration call, as the arguments a caller passes.\<close>

record 'f registration =
  r_name :: string
  r_fn :: 'f
  r_count :: "32 word"
  r_doc :: string
  r_halt :: bool

definition descriptor :: "'f registration \<Rightarrow> 'f Cmd" where
  "descriptor r = \<lparr>fn = r_fn r, doc = r_doc r, param_count = r_count r, halt_on_fail = r_halt r\<rparr>"

definition Register_call :: "'f registration \<Rightarrow> 'f globals \<Rightarrow> bool \<times> 'f globals" where
  "Register_call r g = Register (r_name r) (r_fn r) (r_count r) (r_doc r) (r_halt r) g"

text \<open>A sequence of calls, oldest first; the flags returned are collected.\<close>

fun Register_all :: "'f registration list \<Rightarrow> 'f globals \<Rightarrow> bool list \<times> 'f globals" where
  "Register_all [] g = ([], g)"
| "Register_all (r # rs) g =
     (let (ok, g') = Register_call r g; (oks, g'') = Register_all rs g' in (ok # oks, g''))"

subsection \<open>Param and Params\<close>

text \<open>
  What the C++ leaves undefined is a value of the model: reading through a null pointer,
  reading an array outside its cells, and overflowing a signed \<^verbatim>\<open>int\<close>.
\<close>

datatype fault = NullPointer | OutOfBounds | SignedOverflow

text \<open>\<^verbatim>\<open>class Param\<close> wraps a \<^verbatim>\<open>const char *\<close>; \<open>None\<close> is the null pointer.\<close>

datatype Param = Param (m_param: "string option")

text \<open>
  \<^verbatim>\<open>class Params\<close> wraps a \<^verbatim>\<open>char **\<close> and a count. The pointer is either null or
  points at a cell of an array of strings: \<open>Some xs\<close> lists the cells from the one pointed
  at to the end of the array.
\<close>

record Params =
  m_params :: "string list option"
  m_param_count :: "32 word"

definition GetCount :: "Params \<Rightarrow> 32 word" where
  "GetCount ps = m_param_count ps"

text \<open>\<^verbatim>\<open>Params::operator[]\<close>, lines 83 to 86.\<close>

definition index :: "Params \<Rightarrow> 32 word \<Rightarrow> fault + Param" where
  "index ps i =
     (if i < m_param_count ps
      then (case m_params ps of
              None \<Rightarrow> Inl NullPointer
            | Some xs \<Rightarrow> if unat i < length xs then Inr (Param (Some (xs ! unat i))) else Inl OutOfBounds)
      else Inr (Param None))"

subsection \<open>Conversions\<close>

text \<open>
  \<^verbatim>\<open>Param::Parse<type_t>\<close>. \<open>val\<close> is its field \<^verbatim>\<open>value\<close>, which the three conversions
  declare without an initial value: \<open>None\<close> is the field that nothing was stored in.
\<close>

record 'a Parse =
  val :: "'a option"
  result :: bool

text \<open>
  \<^verbatim>\<open>sin >> p.value\<close> is the formatted input of the C++ standard library, here with the
  stream's initial flags (\<^verbatim>\<open>skipws\<close>, \<^verbatim>\<open>dec\<close>) and the classic locale, as the library
  of the README's compiler (\<^verbatim>\<open>g++\<close>) does it. White space is skipped first. When nothing
  is left the stream fails and stores nothing. Otherwise the longest run of characters
  that can go on a number of the type is read; when the run is not a number the stream
  fails and stores zero, and when it is one the number is stored. What follows the run
  stays in the stream and sets no error flag.
\<close>

datatype 'a extraction = Nothing_left | Not_a_number | Extracted 'a

definition is_space :: "char \<Rightarrow> bool" where
  "is_space c \<longleftrightarrow> c \<in> {CHR '' '', CHR 0x09, CHR 0x0A, CHR 0x0B, CHR 0x0C, CHR 0x0D}"

definition is_digit :: "char \<Rightarrow> bool" where
  "is_digit c \<longleftrightarrow> CHR ''0'' \<le> c \<and> c \<le> CHR ''9''"

definition is_sign :: "char \<Rightarrow> bool" where
  "is_sign c \<longleftrightarrow> c = CHR ''-'' \<or> c = CHR ''+''"

definition digit_val :: "char \<Rightarrow> int" where
  "digit_val c = int (of_char c) - 48"

definition decimal :: "string \<Rightarrow> int" where
  "decimal ds = foldl (\<lambda>acc c. 10 * acc + digit_val c) 0 ds"

text \<open>
  An integer: an optional sign and the digits that follow. The number read is a
  mathematical integer here; its range is checked by the conversions.
\<close>

definition extract_number :: "string \<Rightarrow> int extraction" where
  "extract_number s =
     (let t = dropWhile is_space s in
      if t = [] then Nothing_left
      else
        let neg = (hd t = CHR ''-'');
            u = (if is_sign (hd t) then tl t else t);
            ds = takeWhile is_digit u
        in if ds = [] then Not_a_number
           else Extracted (if neg then - decimal ds else decimal ds))"





text \<open>
  \<^verbatim>\<open>Param::Int\<close>, lines 48 to 55. A number outside \<^verbatim>\<open>int64_t\<close> sets the fail flag and
  stores the nearest bound. \<^verbatim>\<open>sin.str(m_param)\<close> builds a \<^verbatim>\<open>std::string\<close> from the
  pointer, which a null pointer does not allow.
\<close>

definition Param_Int :: "Param \<Rightarrow> fault + (64 word) Parse" where
  "Param_Int p =
     (case m_param p of
        None \<Rightarrow> Inl NullPointer
      | Some s \<Rightarrow>
          Inr (case extract_number s of
                 Nothing_left \<Rightarrow> \<lparr>val = None, result = False\<rparr>
               | Not_a_number \<Rightarrow> \<lparr>val = Some 0, result = False\<rparr>
               | Extracted v \<Rightarrow>
                   if v < - (2 ^ 63) then \<lparr>val = Some (word_of_int (- (2 ^ 63))), result = False\<rparr>
                   else if 2 ^ 63 \<le> v
                   then \<lparr>val = Some (word_of_int (2 ^ 63 - 1)), result = False\<rparr>
                   else \<lparr>val = Some (word_of_int v), result = True\<rparr>))"








subsection \<open>Process\<close>

text \<open>
  What a run shows: the two messages written to \<^verbatim>\<open>std::cout\<close>, and each call of a
  handler with the index of its command, its parameters and what it returned.
\<close>

datatype 'f event =
  Unrecognized string
| TooFew string
| Invoked nat 'f Params bool

text \<open>
  \<^verbatim>\<open>argv[i]\<close> for an \<^verbatim>\<open>int i\<close>: the array has the cells of the list \<open>argv\<close>.
\<close>

definition argv_at :: "string list \<Rightarrow> 32 word \<Rightarrow> string option" where
  "argv_at argv i =
     (if 0 \<le> sint i \<and> nat (sint i) < length argv then Some (argv ! nat (sint i)) else None)"

text \<open>
  The view of line 125:
  \<^verbatim>\<open>Params(a->param_count > 0 ? argv + i + 1 : nullptr, a->param_count)\<close>.
\<close>

definition Params_at :: "string list \<Rightarrow> 32 word \<Rightarrow> 'f Cmd \<Rightarrow> Params" where
  "Params_at argv i a =
     \<lparr>m_params = (if param_count a > 0 then Some (drop (nat (sint i) + 1) argv) else None),
      m_param_count = param_count a\<rparr>"

text \<open>
  The loop of lines 115 to 131, from the test \<^verbatim>\<open>i < argc\<close> on. \<open>call f ps w\<close> runs
  the handler behind the pointer \<open>f\<close> in the world \<open>w\<close> (everything a handler can read and
  change) and gives what it returns and the world it leaves.
  \<^item> \<^verbatim>\<open>i < argc\<close> compares two \<^verbatim>\<open>int\<close>s: signed.
  \<^item> In \<^verbatim>\<open>i + a->param_count >= argc\<close> the \<^verbatim>\<open>uint32_t\<close> operand makes both sides
    unsigned: the sum wraps around and the comparison is unsigned.
  \<^item> \<^verbatim>\<open>i += a->param_count\<close> is the same wrapping sum, read back as an \<^verbatim>\<open>int\<close>.
  \<^item> \<^verbatim>\<open>++i\<close> at the largest \<^verbatim>\<open>int\<close> is undefined.
  The loop need not end, so the result is an option: \<open>None\<close> is a run that never returns.
  The registry \<open>g\<close> is the same in every round: a handler that registers commands while
  \<^verbatim>\<open>Process\<close> runs is outside this model.
\<close>

partial_function (option) Process_loop ::
  "'f globals \<Rightarrow> ('f \<Rightarrow> Params \<Rightarrow> 'w \<Rightarrow> bool \<times> 'w) \<Rightarrow> 32 word \<Rightarrow> string list \<Rightarrow> bool \<Rightarrow>
   32 word \<Rightarrow> bool \<Rightarrow> 'f event list \<Rightarrow> 'w \<Rightarrow> (fault + int \<times> 'f event list \<times> 'w) option" where
  "Process_loop g call argc argv halt_on_unrecognized i success out w =
     (if \<not> (i <s argc) then Some (Inr (if success then 0 else 1, out, w))
      else case argv_at argv i of
        None \<Rightarrow> Some (Inl OutOfBounds)
      | Some tok \<Rightarrow>
         (case Command g tok of
            None \<Rightarrow>
              if halt_on_unrecognized then Some (Inr (1, out @ [Unrecognized tok], w))
              else Process_loop g call argc argv halt_on_unrecognized (i + 1) success
                     (out @ [Unrecognized tok]) w
          | Some a \<Rightarrow>
              if i + param_count a \<ge> argc then
                (if sint (i + param_count a) = 2 ^ 31 - 1 then Some (Inl SignedOverflow)
                 else Process_loop g call argc argv halt_on_unrecognized (i + param_count a + 1)
                        success (out @ [TooFew tok]) w)
              else
                (let ps = Params_at argv i a;
                     (r, w') = call (fn a) ps w;
                     out' = out @ [Invoked (nat (sint i)) (fn a) ps r]
                 in if \<not> r then
                      (if halt_on_fail a then Some (Inr (1, out', w'))
                       else if sint (i + param_count a) = 2 ^ 31 - 1 then Some (Inl SignedOverflow)
                       else Process_loop g call argc argv halt_on_unrecognized
                              (i + param_count a + 1) False out' w')
                    else if sint (i + param_count a) = 2 ^ 31 - 1 then Some (Inl SignedOverflow)
                    else Process_loop g call argc argv halt_on_unrecognized
                           (i + param_count a + 1) success out' w')))"

text \<open>\<^verbatim>\<open>Process\<close>, lines 112 to 133: \<^verbatim>\<open>success = true\<close>, \<^verbatim>\<open>i = 1\<close>, nothing written yet.\<close>

definition Process ::
  "'f globals \<Rightarrow> ('f \<Rightarrow> Params \<Rightarrow> 'w \<Rightarrow> bool \<times> 'w) \<Rightarrow> 32 word \<Rightarrow> string list \<Rightarrow> bool \<Rightarrow> 'w \<Rightarrow>
   (fault + int \<times> 'f event list \<times> 'w) option" where
  "Process g call argc argv halt_on_unrecognized w =
     Process_loop g call argc argv halt_on_unrecognized 1 True [] w"


text \<open>
  The rule of the exit code, for a run that starts with the flag \<open>success\<close> and writes
  the events \<open>evs\<close>: 1 when the flag was already false, when an unrecognized command was
  met with \<^verbatim>\<open>halt_on_unrecognized\<close> set, when a handler that returned false belongs to a
  command with \<^verbatim>\<open>halt_on_fail\<close> set, or when any handler returned false; 0 otherwise.
\<close>

definition exit_code_rule ::
  "'f globals \<Rightarrow> string list \<Rightarrow> bool \<Rightarrow> bool \<Rightarrow> 'f event list \<Rightarrow> int \<Rightarrow> bool" where
  "exit_code_rule g argv halt_on_unrecognized success evs rc \<longleftrightarrow>
     (rc = 0 \<or> rc = 1) \<and>
     (rc = 1 \<longleftrightarrow>
        \<not> success
        \<or> (halt_on_unrecognized \<and> (\<exists>tok. Unrecognized tok \<in> set evs))
        \<or> (\<exists>n f ps a. Invoked n f ps False \<in> set evs \<and> n < length argv
              \<and> Command g (argv ! n) = Some a \<and> halt_on_fail a)
        \<or> (\<exists>n f ps. Invoked n f ps False \<in> set evs))"

text \<open>
  The events after which the loop returns at once: an unrecognized command when
  \<^verbatim>\<open>halt_on_unrecognized\<close> is set, and a call that returned false for a command (the one
  at index \<open>n\<close>) whose \<^verbatim>\<open>halt_on_fail\<close> is set. In a run no event but the last is one
  of these.
\<close>

definition halting :: "'f globals \<Rightarrow> string list \<Rightarrow> bool \<Rightarrow> 'f event \<Rightarrow> bool" where
  "halting g argv halt_on_unrecognized e =
     (case e of
        Unrecognized tok \<Rightarrow> halt_on_unrecognized
      | TooFew tok \<Rightarrow> False
      | Invoked n f ps r \<Rightarrow>
          \<not> r \<and> (case Command g (argv ! n) of None \<Rightarrow> False | Some a \<Rightarrow> halt_on_fail a))"

definition halting_last :: "'f globals \<Rightarrow> string list \<Rightarrow> bool \<Rightarrow> 'f event list \<Rightarrow> bool" where
  "halting_last g argv halt_on_unrecognized evs =
     list_all (\<lambda>e. \<not> halting g argv halt_on_unrecognized e) (butlast evs)"

text \<open>
  What holds of whatever the loop returns when it starts with the flag \<open>success\<close> and
  the events \<open>out\<close>: the events are \<open>out\<close> and those of the run, the exit code follows
  the rule, and only the last event of the run can be a halting one.
\<close>

definition run_ok ::
  "'f globals \<Rightarrow> string list \<Rightarrow> bool \<Rightarrow> bool \<Rightarrow> 'f event list \<Rightarrow>
   fault + int \<times> 'f event list \<times> 'w \<Rightarrow> bool" where
  "run_ok g argv halt_on_unrecognized success out y =
     (case y of
        Inl _ \<Rightarrow> True
      | Inr (rc, evs, w') \<Rightarrow>
          \<exists>evs'. evs = out @ evs' \<and> exit_code_rule g argv halt_on_unrecognized success evs' rc
                  \<and> halting_last g argv halt_on_unrecognized evs')"




subsection \<open>The help command\<close>

text \<open>
  Lines 142 to 154. The inner loop writes one space for each \<^verbatim>\<open>j\<close> below
  \<^verbatim>\<open>longest_cmd - i->first.size()\<close>, a difference of unsigned 64-bit numbers.
\<close>

definition help_padding :: "Info \<Rightarrow> string \<Rightarrow> nat" where
  "help_padding info name = unat (longest_cmd info - size_of name)"

definition help_line :: "Info \<Rightarrow> string \<Rightarrow> 'f Cmd \<Rightarrow> string" where
  "help_line info name c = name @ replicate (help_padding info name) CHR '' '' @ doc c"

definition version_line :: "Info \<Rightarrow> string" where
  "version_line info = app_name info @ '' '' @ version info"

text \<open>
  The lines \<^verbatim>\<open>help\<close> writes. The order in which an \<^verbatim>\<open>unordered_map\<close> is walked is
  not fixed by the program: \<open>order\<close> is the sequence of keys the iterator visits.
\<close>

definition help_Run :: "'f globals \<Rightarrow> string list \<Rightarrow> string list \<times> bool" where
  "help_Run g order =
     (version_line (Information g) #
        concat (map (\<lambda>k. case Cmds g k of None \<Rightarrow> [] | Some c \<Rightarrow> [help_line (Information g) k c]) order),
      True)"

subsection \<open>The commands of the README\<close>

text \<open>
  The two commands of \<^verbatim>\<open>cmd.cpp\<close> (\<^verbatim>\<open>version\<close>, \<^verbatim>\<open>help\<close>) and the three of the README
  (\<^verbatim>\<open>add_two_values\<close>, \<^verbatim>\<open>must_pass\<close>, \<^verbatim>\<open>another_cmd\<close>), as the macro
  \<^verbatim>\<open>CC0_CMD_END\<close> registers them. They are the concrete inputs of the examples below.
\<close>

datatype handler = run_version | run_help | run_add_two_values | run_must_pass | run_another_cmd

definition readme_registrations :: "handler registration list" where
  "readme_registrations =
     [\<lparr>r_name = ''version'', r_fn = run_version, r_count = 0, r_doc = ''Print version.'',
       r_halt = False\<rparr>,
      \<lparr>r_name = ''help'', r_fn = run_help, r_count = 0, r_doc = ''Print help.'', r_halt = False\<rparr>,
      \<lparr>r_name = ''add_two_values'', r_fn = run_add_two_values, r_count = 2,
       r_doc = ''Adds two specified values together and prints the result.'', r_halt = False\<rparr>,
      \<lparr>r_name = ''must_pass'', r_fn = run_must_pass, r_count = 0,
       r_doc = ''Running this command will stop processing further commands.'', r_halt = True\<rparr>,
      \<lparr>r_name = ''another_cmd'', r_fn = run_another_cmd, r_count = 0,
       r_doc = ''Just another command.'', r_halt = False\<rparr>]"

definition readme_globals :: "handler globals" where
  "readme_globals = Init ''cmd-test'' ''1.0'' (snd (Register_all readme_registrations initial))"

text \<open>What the handlers write to \<^verbatim>\<open>std::cout\<close>: a line of text or a number.\<close>

datatype printed = Line string | Number "64 word"

text \<open>
  The bodies of the five handlers; the world is the list of what was written so far.
  \<^verbatim>\<open>add_two_values\<close> reads \<^verbatim>\<open>params[0].Int()\<close> and \<^verbatim>\<open>params[1].Int()\<close>; \<^verbatim>\<open>help\<close> walks
  the map in the order of \<open>readme_registrations\<close>.
\<close>

definition readme_call :: "handler \<Rightarrow> Params \<Rightarrow> printed list \<Rightarrow> bool \<times> printed list" where
  "readme_call f ps w =
     (case f of
        run_version \<Rightarrow> (True, w @ [Line (version_line (Information readme_globals))])
      | run_help \<Rightarrow>
          (True, w @ map Line (fst (help_Run readme_globals
                                      (map (\<lambda>r. sanitize (r_name r)) readme_registrations))))
      | run_add_two_values \<Rightarrow>
          (case (index ps 0, index ps 1) of
             (Inr a, Inr b) \<Rightarrow>
               (case (Param_Int a, Param_Int b) of
                  (Inr p1, Inr p2) \<Rightarrow>
                    if result p1 \<and> result p2
                    then (case (val p1, val p2) of
                            (Some v1, Some v2) \<Rightarrow> (True, w @ [Number (v1 + v2)])
                          | _ \<Rightarrow> (False, w))
                    else (False, w)
                | _ \<Rightarrow> (False, w))
           | _ \<Rightarrow> (False, w))
      | run_must_pass \<Rightarrow> (False, w)
      | run_another_cmd \<Rightarrow> (True, w @ [Line '':('']))"


section \<open>The name sanitizer\<close>

lemma is_alnum_hyphen: "\<not> is_alnum CHR ''-''"
  by (simp add: is_alnum_def)

text \<open>After \<open>i\<close> rounds the first \<open>i\<close> characters are done and the rest is still to do.\<close>

lemma sanitize_loop_map:
  "i \<le> length cmd \<Longrightarrow>
   sanitize_loop i cmd = take i cmd @ map (\<lambda>c. if is_alnum c then c else CHR ''-'') (drop i cmd)"
proof (induction i cmd rule: sanitize_loop.induct)
  case (1 i cmd)
  let ?keep = "\<lambda>c. if is_alnum c then c else CHR ''-''"
  show ?case
  proof (cases "i < length cmd")
    case False
    with "1.prems" show ?thesis by simp
  next
    case True
    let ?cmd' = "if \<not> is_alnum (cmd ! i) then cmd[i := CHR ''-''] else cmd"
    have len: "length ?cmd' = length cmd" by simp
    have ih: "sanitize_loop (i + 1) ?cmd' = take (i + 1) ?cmd' @ map ?keep (drop (i + 1) ?cmd')"
      using "1.IH" [OF True] True len by simp
    have t: "take (i + 1) ?cmd' = take i cmd @ [?keep (cmd ! i)]"
      using True by (simp add: take_Suc_conv_app_nth)
    have d: "drop (i + 1) ?cmd' = drop (i + 1) cmd"
      by simp
    have "drop i cmd = cmd ! i # drop (i + 1) cmd"
      using True by (simp add: Cons_nth_drop_Suc)
    then show ?thesis
      using True ih t d by (simp del: sanitize_loop.simps add: sanitize_loop.simps [of i cmd])
  qed
qed

lemma sanitize_map: "sanitize s = map (\<lambda>c. if is_alnum c then c else CHR ''-'') s"
  by (simp add: sanitize_def sanitize_loop_map del: sanitize_loop.simps)

lemma sanitize_length: "length (sanitize s) = length s"
  by (simp add: sanitize_map)

lemma sanitize_chars: "c \<in> set (sanitize s) \<Longrightarrow> is_alnum c \<or> c = CHR ''-''"
  by (auto simp: sanitize_map split: if_splits)

text \<open>
  C6. The sanitized name has the length of the raw name, each character is kept when it
  is an ASCII letter or digit and is \<^verbatim>\<open>'-'\<close> otherwise, and sanitizing twice is
  sanitizing once.
\<close>

theorem sanitize_keeps_alnum_idempotent:
  "length (sanitize s) = length s
   \<and> sanitize s = map (\<lambda>c. if is_alnum c then c else CHR ''-'') s
   \<and> sanitize (sanitize s) = sanitize s"
  by (simp add: sanitize_map is_alnum_hyphen)

section \<open>The registry\<close>

lemma Register_call_fst: "fst (Register_call r g) = True"
  by (simp add: Register_call_def Register_def Let_def)

lemma Register_call_Cmds:
  "Cmds (snd (Register_call r g)) = (Cmds g)(sanitize (r_name r) \<mapsto> descriptor r)"
  by (simp add: Register_call_def Register_def Let_def descriptor_def)

lemma Register_call_longest:
  "longest_cmd (Information (snd (Register_call r g))) =
     (if size_of (sanitize (r_name r)) + 3 > longest_cmd (Information g)
      then size_of (sanitize (r_name r)) + 3 else longest_cmd (Information g))"
  by (simp add: Register_call_def Register_def Let_def)

lemma Register_all_snoc:
  "Register_all (rs @ [r]) g =
     (fst (Register_all rs g) @ [fst (Register_call r (snd (Register_all rs g)))],
      snd (Register_call r (snd (Register_all rs g))))"
  by (induction rs arbitrary: g) (simp_all add: split_beta Let_def)

lemma Register_all_flags: "fst (Register_all rs g) = replicate (length rs) True"
  by (induction rs arbitrary: g) (simp_all add: split_beta Let_def Register_call_fst)

lemma Register_all_lookup:
  "Command (snd (Register_all rs g)) k =
     (case find (\<lambda>r. sanitize (r_name r) = k) (rev rs) of
        Some r \<Rightarrow> Some (descriptor r)
      | None \<Rightarrow> Command g k)"
proof (induction rs rule: rev_induct)
  case Nil
  show ?case by simp
next
  case (snoc r rs)
  then show ?case
    by (simp add: Register_all_snoc Register_call_Cmds Command_def)
qed

lemma Register_all_dom:
  "dom (Cmds (snd (Register_all rs g))) = dom (Cmds g) \<union> (\<lambda>r. sanitize (r_name r)) ` set rs"
proof (induction rs rule: rev_induct)
  case Nil
  show ?case by simp
next
  case (snoc r rs)
  have "dom (Cmds (snd (Register_all (rs @ [r]) g))) =
        insert (sanitize (r_name r)) (dom (Cmds (snd (Register_all rs g))))"
    by (simp add: Register_all_snoc Register_call_Cmds)
  with snoc.IH show ?case by auto
qed

text \<open>
  C5. Every call of \<^verbatim>\<open>Register\<close> returns true, and after any sequence of calls the
  lookup of a sanitized name gives the descriptor (handler, arity, doc, halt_on_fail) of
  the latest call whose sanitized name is that name: \<open>find\<close> on the reversed sequence
  is the latest such call. Where no call had the name, the lookup is as it was before.
\<close>

theorem Register_last_wins:
  "fst (Register cmd_name f pc d hof g) = True
   \<and> fst (Register_all rs g) = replicate (length rs) True
   \<and> Command (snd (Register_all rs g)) (sanitize name) =
       (case find (\<lambda>r. sanitize (r_name r) = sanitize name) (rev rs) of
          Some r \<Rightarrow> Some (descriptor r)
        | None \<Rightarrow> Command g (sanitize name))"
  by (simp add: Register_all_flags Register_all_lookup Register_def Let_def)

text \<open>
  C9, as stated: every key is non-empty. \<^verbatim>\<open>Register\<close> takes the empty name as any other
  and stores the empty key.
\<close>

theorem Register_stores_empty_key:
  "Command (snd (Register [] run_version 0 ''Print version.'' False initial)) []
   = Some \<lparr>fn = run_version, doc = ''Print version.'', param_count = 0, halt_on_fail = False\<rparr>"
  by (simp add: Register_def Let_def Command_def initial_def sanitize_def)

text \<open>
  C9, amended. After every sequence of \<^verbatim>\<open>Register\<close> calls every key of the registry
  consists of ASCII letters, digits and \<^verbatim>\<open>'-'\<close> only, and it is the sanitized form of a
  registered raw name, of the same length: it is empty only when that raw name is.
\<close>

theorem registry_keys_sanitized:
  assumes "k \<in> dom (Cmds (snd (Register_all rs initial)))"
  shows "(\<forall>c \<in> set k. is_alnum c \<or> c = CHR ''-'')
         \<and> (\<exists>r \<in> set rs. k = sanitize (r_name r) \<and> length k = length (r_name r))"
proof -
  from assms obtain r where r: "r \<in> set rs" "k = sanitize (r_name r)"
    by (auto simp: Register_all_dom initial_def)
  then have "\<forall>c \<in> set k. is_alnum c \<or> c = CHR ''-''"
    by (simp add: sanitize_chars)
  moreover have "length k = length (r_name r)"
    using r by (simp add: sanitize_length)
  ultimately show ?thesis using r by blast
qed

lemma readme_registered:
  "Cmds (snd (Register_all readme_registrations initial)) =
     [''version'' \<mapsto> \<lparr>fn = run_version, doc = ''Print version.'', param_count = 0,
                      halt_on_fail = False\<rparr>,
      ''help'' \<mapsto> \<lparr>fn = run_help, doc = ''Print help.'', param_count = 0, halt_on_fail = False\<rparr>,
      ''add-two-values'' \<mapsto> \<lparr>fn = run_add_two_values,
         doc = ''Adds two specified values together and prints the result.'', param_count = 2,
         halt_on_fail = False\<rparr>,
      ''must-pass'' \<mapsto> \<lparr>fn = run_must_pass,
         doc = ''Running this command will stop processing further commands.'', param_count = 0,
         halt_on_fail = True\<rparr>,
      ''another-cmd'' \<mapsto> \<lparr>fn = run_another_cmd, doc = ''Just another command.'',
         param_count = 0, halt_on_fail = False\<rparr>]"
  by (simp add: readme_registrations_def Register_call_def Register_def
      Let_def initial_def sanitize_def is_alnum_def)

lemma readme_registered_longest:
  "longest_cmd (Information (snd (Register_all readme_registrations initial))) = 17"
  by (simp add: readme_registrations_def Register_call_def Register_def
      Let_def initial_def sanitize_def is_alnum_def size_of_def)

theorem registry_keys_sanitized_witness:
  "''add-two-values'' \<in> dom (Cmds (snd (Register_all readme_registrations initial)))
   \<and> list_all (\<lambda>c. is_alnum c \<or> c = CHR ''-'') ''add-two-values''
   \<and> ''add-two-values'' \<in> (\<lambda>r. sanitize (r_name r)) ` set readme_registrations"
proof -
  have d: "''add-two-values'' \<in> dom (Cmds (snd (Register_all readme_registrations initial)))"
    by (simp add: readme_registered)
  from registry_keys_sanitized [OF d] d show ?thesis
    by (auto simp: list_all_iff)
qed

subsection \<open>The longest name\<close>

lemma size_of_unat: "length s + 3 < 2 ^ 64 \<Longrightarrow> unat (size_of s) = length s"
  by (simp add: size_of_def unat_of_nat)

lemma size_of_plus3:
  assumes "length s + 3 < 2 ^ 64"
  shows "unat (size_of s + 3) = length s + 3"
proof -
  have "unat (size_of s) = length s"
    using assms by (rule size_of_unat)
  moreover have "unat (3 :: 64 word) = 3" by simp
  ultimately show ?thesis
    using assms by (simp add: unat_word_ariths)
qed

lemma Register_call_mono:
  "longest_cmd (Information g) \<le> longest_cmd (Information (snd (Register_call r g)))"
  by (simp add: Register_call_longest less_imp_le)

text \<open>The invariant: \<^verbatim>\<open>longest_cmd\<close> is at least the length of every key plus 3.\<close>

lemma Register_call_covers:
  assumes inv: "\<forall>k \<in> dom (Cmds g). length k + 3 \<le> unat (longest_cmd (Information g))"
    and fit: "length (r_name r) + 3 < 2 ^ 64"
  shows "\<forall>k \<in> dom (Cmds (snd (Register_call r g))).
           length k + 3 \<le> unat (longest_cmd (Information (snd (Register_call r g))))"
proof
  let ?k = "sanitize (r_name r)"
  have u: "unat (size_of ?k + 3) = length ?k + 3"
    using fit by (simp add: size_of_plus3 sanitize_length)
  fix k assume "k \<in> dom (Cmds (snd (Register_call r g)))"
  then consider "k = ?k" | "k \<in> dom (Cmds g)"
    by (auto simp: Register_call_Cmds split: if_splits)
  then show "length k + 3 \<le> unat (longest_cmd (Information (snd (Register_call r g))))"
  proof cases
    case 1
    then show ?thesis using u
      by (simp add: Register_call_longest word_less_nat_alt)
  next
    case 2
    then have "length k + 3 \<le> unat (longest_cmd (Information g))"
      using inv by simp
    moreover have "unat (longest_cmd (Information g))
                   \<le> unat (longest_cmd (Information (snd (Register_call r g))))"
      using Register_call_mono [of g r] by (simp add: word_le_nat_alt)
    ultimately show ?thesis by simp
  qed
qed

lemma Register_all_covers:
  assumes "\<forall>r \<in> set rs. length (r_name r) + 3 < 2 ^ 64"
  shows "\<forall>k \<in> dom (Cmds (snd (Register_all rs initial))).
           length k + 3 \<le> unat (longest_cmd (Information (snd (Register_all rs initial))))"
  using assms
proof (induction rs rule: rev_induct)
  case Nil
  show ?case by (simp add: initial_def)
next
  case (snoc r rs)
  then show ?case
    by (simp add: Register_all_snoc Register_call_covers del: dom_fun_upd)
qed

lemma covered_padding:
  assumes le: "length k + 3 \<le> unat (longest_cmd info)"
  shows "size_of k \<le> longest_cmd info"
    and "help_padding info k = unat (longest_cmd info) - length k"
    and "3 \<le> help_padding info k"
proof -
  have "unat (longest_cmd info) < 2 ^ 64"
    using unsigned_less [of "longest_cmd info"] by simp
  with le have "length k + 3 < 2 ^ 64" by simp
  then have u: "unat (size_of k) = length k" by (rule size_of_unat)
  with le show 1: "size_of k \<le> longest_cmd info"
    by (simp add: word_le_nat_alt)
  from 1 u show 2: "help_padding info k = unat (longest_cmd info) - length k"
    by (simp add: help_padding_def unat_sub)
  from 2 le show "3 \<le> help_padding info k" by simp
qed

text \<open>
  C10. After every sequence of \<^verbatim>\<open>Register\<close> calls (with names a \<^verbatim>\<open>std::string\<close> can
  hold, so that \<^verbatim>\<open>cmd.size() + 3\<close> does not wrap around) \<^verbatim>\<open>longest_cmd\<close> is at least the
  length of every key plus 3, and no call makes it smaller. So the subtraction in
  \<^verbatim>\<open>help\<close> does not wrap around (the name's size is at most \<^verbatim>\<open>longest_cmd\<close>, and the
  number of spaces is the difference of the two numbers), and every line has the name, at
  least 3 spaces, and the doc string.
\<close>

theorem longest_cmd_covers_names:
  assumes "\<forall>r \<in> set rs. length (r_name r) + 3 < 2 ^ 64"
    and "g' = snd (Register_all rs initial)"
  shows "(\<forall>k c. Cmds g' k = Some c \<longrightarrow>
            length k + 3 \<le> unat (longest_cmd (Information g'))
            \<and> size_of k \<le> longest_cmd (Information g')
            \<and> help_padding (Information g') k = unat (longest_cmd (Information g')) - length k
            \<and> 3 \<le> help_padding (Information g') k
            \<and> help_line (Information g') k c
                = k @ replicate (help_padding (Information g') k) CHR '' '' @ doc c)
         \<and> (\<forall>r g. longest_cmd (Information g)
                     \<le> longest_cmd (Information (snd (Register_call r (g :: 'f globals)))))"
proof -
  have "length k + 3 \<le> unat (longest_cmd (Information g'))" if "Cmds g' k = Some c" for k c
    using Register_all_covers [OF assms(1)] that assms(2) by auto
  then have "length k + 3 \<le> unat (longest_cmd (Information g'))
        \<and> size_of k \<le> longest_cmd (Information g')
        \<and> help_padding (Information g') k = unat (longest_cmd (Information g')) - length k
        \<and> 3 \<le> help_padding (Information g') k
        \<and> help_line (Information g') k c
            = k @ replicate (help_padding (Information g') k) CHR '' '' @ doc c"
    if "Cmds g' k = Some c" for k c
    using that covered_padding [of k "Information g'"] by (simp add: help_line_def)
  then show ?thesis
    using Register_call_mono by blast
qed

theorem longest_cmd_covers_names_witness:
  "list_all (\<lambda>r. length (r_name r) + 3 < 2 ^ 64) readme_registrations
   \<and> Cmds (snd (Register_all readme_registrations initial)) ''help''
       = Some \<lparr>fn = run_help, doc = ''Print help.'', param_count = 0, halt_on_fail = False\<rparr>
   \<and> longest_cmd (Information (snd (Register_all readme_registrations initial))) = 17
   \<and> help_padding (Information (snd (Register_all readme_registrations initial))) ''help'' = 13
   \<and> help_line (Information (snd (Register_all readme_registrations initial))) ''help''
       \<lparr>fn = run_help, doc = ''Print help.'', param_count = 0, halt_on_fail = False\<rparr>
       = ''help'' @ replicate 13 CHR '' '' @ ''Print help.''"
proof -
  have a: "\<forall>r \<in> set readme_registrations. length (r_name r) + 3 < 2 ^ 64"
    by (simp add: readme_registrations_def)
  have h: "Cmds (snd (Register_all readme_registrations initial)) ''help''
       = Some \<lparr>fn = run_help, doc = ''Print help.'', param_count = 0, halt_on_fail = False\<rparr>"
    by (simp add: readme_registered)
  let ?g = "snd (Register_all readme_registrations initial) :: handler globals"
  have "\<forall>k c. Cmds ?g k = Some c \<longrightarrow>
          length k + 3 \<le> unat (longest_cmd (Information ?g))
          \<and> size_of k \<le> longest_cmd (Information ?g)
          \<and> help_padding (Information ?g) k = unat (longest_cmd (Information ?g)) - length k
          \<and> 3 \<le> help_padding (Information ?g) k
          \<and> help_line (Information ?g) k c
              = k @ replicate (help_padding (Information ?g) k) CHR '' '' @ doc c"
    using longest_cmd_covers_names [OF a refl] by (rule conjunct1)
  with h have "help_padding (Information ?g) ''help''
                 = unat (longest_cmd (Information ?g)) - length ''help''
        \<and> help_line (Information ?g) ''help''
             \<lparr>fn = run_help, doc = ''Print help.'', param_count = 0, halt_on_fail = False\<rparr>
           = ''help'' @ replicate (help_padding (Information ?g) ''help'') CHR '' ''
               @ ''Print help.''"
    by fastforce
  with h a show ?thesis
    by (simp add: readme_registered_longest list_all_iff)
qed

section \<open>The processing loop\<close>

subsection \<open>The \<^verbatim>\<open>int\<close> arithmetic of the loop where nothing overflows\<close>

lemma sint_bounds: "- (2 ^ 31) \<le> sint (x :: 32 word)" "sint (x :: 32 word) < 2 ^ 31"
  using sint_ge [of x] sint_lt [of x] by simp_all

lemma sint_of_small: "uint (x :: 32 word) < 2 ^ 31 \<Longrightarrow> sint x = uint x"
proof -
  assume a: "uint x < 2 ^ 31"
  have "sint x = signed_take_bit 31 (uint x)"
    by (simp add: sint_uint)
  also have "\<dots> = uint x"
  proof (rule signed_take_bit_int_eq_self)
    have "- (2 ^ 31) \<le> (0 :: int)" by simp
    also have "0 \<le> uint x" by simp
    finally show "- (2 ^ 31) \<le> uint x" .
    show "uint x < 2 ^ 31" by (fact a)
  qed
  finally show ?thesis .
qed

lemma uint_of_nonneg: "0 \<le> sint (x :: 32 word) \<Longrightarrow> uint x = sint x"
proof -
  assume a: "0 \<le> sint x"
  have "uint x = take_bit 32 (sint x)"
    by (simp add: uint_sint)
  also have "\<dots> = sint x"
    using a sint_bounds(2) [of x] by (intro take_bit_int_eq_self) simp_all
  finally show ?thesis .
qed

lemma sint_add_small:
  assumes "0 \<le> sint (i :: 32 word)" and "sint i + uint (pc :: 32 word) < 2 ^ 31"
  shows "uint (i + pc) = sint i + uint pc" and "sint (i + pc) = sint i + uint pc"
proof -
  have ui: "uint i = sint i" using assms(1) by (rule uint_of_nonneg)
  have "uint i + uint pc < 2 ^ LENGTH(32)"
    using assms(2) ui by simp
  then have "uint (i + pc) = uint i + uint pc"
    by (simp only: uint_add_lem)
  with ui show u: "uint (i + pc) = sint i + uint pc" by simp
  with assms(2) show "sint (i + pc) = sint i + uint pc"
    by (simp add: sint_of_small)
qed

lemma sint_succ:
  assumes "sint (i :: 32 word) < 2 ^ 31 - 1"
  shows "sint (i + 1) = sint i + 1"
proof -
  have "sint (i + 1) = signed_take_bit 31 (sint i + sint (1 :: 32 word))"
    by (simp add: sint_word_ariths)
  also have "\<dots> = signed_take_bit 31 (sint i + 1)" by simp
  also have "\<dots> = sint i + 1"
    using assms sint_bounds(1) [of i] by (intro signed_take_bit_int_eq_self) simp_all
  finally show ?thesis .
qed

subsection \<open>One round of the loop\<close>

lemma step_exit:
  "\<not> i <s argc \<Longrightarrow>
   Process_loop g call argc argv h i s out w = Some (Inr (if s then 0 else 1, out, w))"
  by (subst Process_loop.simps) simp

lemma step_unrecognized:
  "i <s argc \<Longrightarrow> argv_at argv i = Some tok \<Longrightarrow> Command g tok = None \<Longrightarrow>
   Process_loop g call argc argv h i s out w =
     (if h then Some (Inr (1, out @ [Unrecognized tok], w))
      else Process_loop g call argc argv h (i + 1) s (out @ [Unrecognized tok]) w)"
  by (subst Process_loop.simps) simp

lemma step_too_few:
  "i <s argc \<Longrightarrow> argv_at argv i = Some tok \<Longrightarrow> Command g tok = Some a \<Longrightarrow>
   argc \<le> i + param_count a \<Longrightarrow>
   Process_loop g call argc argv h i s out w =
     (if sint (i + param_count a) = 2 ^ 31 - 1 then Some (Inl SignedOverflow)
      else Process_loop g call argc argv h (i + param_count a + 1) s (out @ [TooFew tok]) w)"
  by (subst Process_loop.simps) simp

lemma step_call:
  "i <s argc \<Longrightarrow> argv_at argv i = Some tok \<Longrightarrow> Command g tok = Some a \<Longrightarrow>
   \<not> argc \<le> i + param_count a \<Longrightarrow> call (fn a) (Params_at argv i a) w = (r, w') \<Longrightarrow>
   Process_loop g call argc argv h i s out w =
     (if \<not> r \<and> halt_on_fail a
      then Some (Inr (1, out @ [Invoked (nat (sint i)) (fn a) (Params_at argv i a) r], w'))
      else if sint (i + param_count a) = 2 ^ 31 - 1 then Some (Inl SignedOverflow)
      else Process_loop g call argc argv h (i + param_count a + 1) (s \<and> r)
             (out @ [Invoked (nat (sint i)) (fn a) (Params_at argv i a) r]) w')"
  by (subst Process_loop.simps) (simp add: Let_def)

lemma readme_Cmds: "Cmds readme_globals = Cmds (snd (Register_all readme_registrations initial))"
  by (simp add: readme_globals_def Init_def)

lemma readme_Information:
  "Information readme_globals = \<lparr>app_name = ''cmd-test'', version = ''1.0'', longest_cmd = 17\<rparr>"
  using readme_registered_longest by (simp add: readme_globals_def Init_def)

lemma argv_at_nonneg: "argv_at argv i = Some tok \<Longrightarrow> 0 \<le> sint i"
  by (simp add: argv_at_def split: if_splits)

lemmas readme_eval = Process_def argv_at_def Command_def readme_Cmds readme_registered
  word_sless_alt word_le_nat_alt Params_at_def readme_call_def Let_def

subsection \<open>Too few parameters\<close>

text \<open>
  C1, as stated: after the too-few-parameters message the loop goes on with the next
  token. For \<^verbatim>\<open>app add-two-values version\<close> the code reports \<^verbatim>\<open>add-two-values\<close> and
  returns 0 without running \<^verbatim>\<open>version\<close> (first equation); going on at index 2, as the
  claim has it, would run \<^verbatim>\<open>version\<close> (second equation).
\<close>

theorem too_few_does_not_continue:
  "Process_loop readme_globals readme_call 3 [''app'', ''add-two-values'', ''version''] False
       1 True [] []
     = Some (Inr (0, [TooFew ''add-two-values''], []))
   \<and> Process_loop readme_globals readme_call 3 [''app'', ''add-two-values'', ''version''] False
       (1 + 1) True [TooFew ''add-two-values''] []
     = Some (Inr (0, [TooFew ''add-two-values'',
                      Invoked 2 run_version \<lparr>m_params = None, m_param_count = 0\<rparr> True],
                  [Line ''cmd-test 1.0'']))"
  by (simp add: Process_loop.simps readme_eval version_line_def readme_Information)

text \<open>
  C1, amended. When the command at index \<open>i\<close> has more parameters than tokens remain
  (\<^verbatim>\<open>i + arity >= argc\<close>, with \<open>i + arity + 1\<close> inside the range of \<^verbatim>\<open>int\<close>), the loop
  writes
  the too-few-parameters message, calls no handler, and goes on at index
  \<open>i + arity + 1\<close>, more than one step ahead and beyond the last token: no later token is
  looked at, and \<^verbatim>\<open>Process\<close> returns with the flag it had, 0 when no handler failed
  before.
\<close>

theorem too_few_parameters_ends_run:
  assumes "i <s argc" and "argv_at argv i = Some tok" and "Command g tok = Some a"
    and "argc \<le> i + param_count a"
    and "sint i + uint (param_count a) < 2 ^ 31 - 1"
  shows "Process_loop g call argc argv h i s out w
           = Process_loop g call argc argv h (i + param_count a + 1) s (out @ [TooFew tok]) w
         \<and> sint (i + param_count a + 1) = sint i + uint (param_count a) + 1
         \<and> 0 < uint (param_count a)
         \<and> \<not> (i + param_count a + 1 <s argc)
         \<and> Process_loop g call argc argv h i s out w
             = Some (Inr (if s then 0 else 1, out @ [TooFew tok], w))"
proof -
  let ?j = "i + param_count a + 1"
  have nn: "0 \<le> sint i" using assms(2) by (rule argv_at_nonneg)
  have lt: "sint i < sint argc" using assms(1) by (simp add: word_sless_alt)
  have small: "sint i + uint (param_count a) < 2 ^ 31" using assms(5) by simp
  have usum: "uint (i + param_count a) = sint i + uint (param_count a)"
    using nn small by (rule sint_add_small(1))
  have ssum: "sint (i + param_count a) = sint i + uint (param_count a)"
    using nn small by (rule sint_add_small(2))
  have nov: "sint (i + param_count a) \<noteq> 2 ^ 31 - 1"
    using ssum assms(5) by simp
  have sj: "sint ?j = sint i + uint (param_count a) + 1"
    using ssum assms(5) sint_succ [of "i + param_count a"] by simp
  have "uint argc = sint argc"
    using nn lt by (intro uint_of_nonneg) simp
  moreover have "uint argc \<le> uint (i + param_count a)"
    using assms(4) by (simp add: word_le_def)
  ultimately have few: "sint argc \<le> sint i + uint (param_count a)"
    using usum by simp
  then have pos: "0 < uint (param_count a)" using lt by simp
  have stop: "\<not> ?j <s argc"
    using few sj by (simp add: word_sless_alt)
  have 1: "Process_loop g call argc argv h i s out w
           = Process_loop g call argc argv h ?j s (out @ [TooFew tok]) w"
    using assms(1-4) nov by (simp add: step_too_few)
  have 2: "Process_loop g call argc argv h ?j s (out @ [TooFew tok]) w
           = Some (Inr (if s then 0 else 1, out @ [TooFew tok], w))"
    using stop by (rule step_exit)
  from 1 2 sj pos stop show ?thesis by simp
qed

theorem too_few_parameters_ends_run_witness:
  "Process readme_globals readme_call 3 [''app'', ''add-two-values'', ''version''] False []
     = Some (Inr (0, [TooFew ''add-two-values''], []))"
proof -
  let ?argv = "[''app'', ''add-two-values'', ''version'']"
  let ?a = "\<lparr>fn = run_add_two_values,
         doc = ''Adds two specified values together and prints the result.'', param_count = 2,
         halt_on_fail = False\<rparr>"
  have 1: "(1 :: 32 word) <s 3" by (simp add: word_sless_alt)
  have 2: "argv_at ?argv 1 = Some ''add-two-values''" by (simp add: argv_at_def)
  have 3: "Command readme_globals ''add-two-values'' = Some ?a"
    by (simp add: Command_def readme_Cmds readme_registered)
  have 4: "(3 :: 32 word) \<le> 1 + param_count ?a" by simp
  have 5: "sint (1 :: 32 word) + uint (param_count ?a) < 2 ^ 31 - 1" by simp
  have "Process_loop readme_globals readme_call 3 ?argv False 1 True [] []
          = Some (Inr (if True then 0 else 1, [] @ [TooFew ''add-two-values''], []))"
    using too_few_parameters_ends_run [OF 1 2 3 4 5, of readme_call False True "[]" "[]"]
    by (elim conjE)
  then show ?thesis by (simp add: Process_def)
qed

subsection \<open>The exit code and the halting events of a run\<close>

lemma exit_code_rule_Nil:
  "exit_code_rule g argv h s [] (if s then 0 else 1)"
  by (simp add: exit_code_rule_def)

lemma exit_code_rule_halt:
  "exit_code_rule g argv True s [Unrecognized tok] 1"
  by (simp add: exit_code_rule_def)

lemma exit_code_rule_skip:
  "exit_code_rule g argv False s evs rc \<Longrightarrow> exit_code_rule g argv False s (Unrecognized tok # evs) rc"
  by (auto simp: exit_code_rule_def)

lemma exit_code_rule_too_few:
  "exit_code_rule g argv h s evs rc \<Longrightarrow> exit_code_rule g argv h s (TooFew tok # evs) rc"
  by (auto simp: exit_code_rule_def)

lemma exit_code_rule_ok:
  "exit_code_rule g argv h s evs rc \<Longrightarrow> exit_code_rule g argv h s (Invoked n f ps True # evs) rc"
  by (auto simp: exit_code_rule_def)

lemma exit_code_rule_failed:
  "exit_code_rule g argv h False evs rc \<Longrightarrow> exit_code_rule g argv h s (Invoked n f ps False # evs) rc"
  by (auto simp: exit_code_rule_def)

lemma exit_code_rule_stop:
  "exit_code_rule g argv h s [Invoked n f ps False] 1"
  by (auto simp: exit_code_rule_def)


text \<open>Whatever the loop returns, for every input: by induction on the loop's own recursion.\<close>

lemma halting_last_Nil: "halting_last g argv h []"
  by (simp add: halting_last_def)

lemma halting_last_single: "halting_last g argv h [e]"
  by (simp add: halting_last_def)

lemma halting_last_Cons:
  "\<not> halting g argv h e \<Longrightarrow> halting_last g argv h evs \<Longrightarrow> halting_last g argv h (e # evs)"
  by (simp add: halting_last_def)

lemma run_ok_step:
  assumes "run_ok g argv h s' (out @ [e]) y" and "\<not> halting g argv h e"
    and "\<And>evs rc. exit_code_rule g argv h s' evs rc \<Longrightarrow> exit_code_rule g argv h s (e # evs) rc"
  shows "run_ok g argv h s out y"
proof (cases y)
  case (Inl a)
  then show ?thesis by (simp add: run_ok_def)
next
  case (Inr r)
  obtain rc evs w' where r: "r = (rc, evs, w')" by (cases r)
  with assms(1) Inr obtain evs' where e: "evs = (out @ [e]) @ evs'"
    "exit_code_rule g argv h s' evs' rc" "halting_last g argv h evs'"
    by (auto simp: run_ok_def)
  have "evs = out @ (e # evs')" using e(1) by simp
  moreover have "exit_code_rule g argv h s (e # evs') rc" using e(2) by (rule assms(3))
  moreover have "halting_last g argv h (e # evs')" using assms(2) e(3) by (rule halting_last_Cons)
  ultimately show ?thesis using Inr r by (auto simp: run_ok_def)
qed

lemma run_ok_stop:
  assumes "exit_code_rule g argv h s [e] rc"
  shows "run_ok g argv h s out (Inr (rc, out @ [e], w'))"
  using assms by (auto simp: run_ok_def halting_last_single)

lemma Process_loop_partial:
  assumes run: "Process_loop g0 call0 argc0 argv0 h0 i0 s0 out0 w0 = Some y0"
  shows "run_ok g0 argv0 h0 s0 out0 y0"
proof (rule Process_loop.raw_induct
    [where P = "\<lambda>g call argc argv h i s out w y. run_ok g argv h s out y", OF _ run], goal_cases)
  case (1 loop g call argc argv h i s out w y)
  note IH = 1(1) and body = 1(2)
  show ?case
  proof (cases "i <s argc")
    case False
    with body have "y = Inr (if s then 0 else 1, out, w)" by simp
    then show ?thesis
      by (auto simp: run_ok_def exit_code_rule_Nil halting_last_Nil)
  next
    case True
    show ?thesis
    proof (cases "argv_at argv i")
      case None
      with True body have "y = Inl OutOfBounds" by simp
      then show ?thesis by (simp add: run_ok_def)
    next
      case (Some tok)
      then have n: "nat (sint i) < length argv" and tok: "tok = argv ! nat (sint i)"
        by (auto simp: argv_at_def split: if_splits)
      show ?thesis
      proof (cases "Command g tok")
        case None
        show ?thesis
        proof (cases h)
          case True
          with \<open>i <s argc\<close> Some None body have "y = Inr (1, out @ [Unrecognized tok], w)" by simp
          moreover have "exit_code_rule g argv h s [Unrecognized tok] 1"
            using True by (simp add: exit_code_rule_halt)
          ultimately show ?thesis by (simp add: run_ok_stop)
        next
          case False
          with \<open>i <s argc\<close> Some None body
          have "loop g call argc argv h (i + 1) s (out @ [Unrecognized tok]) w = Some y" by simp
          then have "run_ok g argv h s (out @ [Unrecognized tok]) y" by (rule IH)
          then show ?thesis
          proof (rule run_ok_step)
            show "\<not> halting g argv h (Unrecognized tok)" using False by (simp add: halting_def)
            show "exit_code_rule g argv h s (Unrecognized tok # evs) rc"
              if "exit_code_rule g argv h s evs rc" for evs rc
              using that False by (simp add: exit_code_rule_skip)
          qed
        qed
      next
        case (Some a)
        note cmd = Some
        let ?j = "i + param_count a + 1"
        show ?thesis
        proof (cases "argc \<le> i + param_count a")
          case True
          show ?thesis
          proof (cases "sint (i + param_count a) = 2 ^ 31 - 1")
            case True
            with \<open>i <s argc\<close> \<open>argv_at argv i = Some tok\<close> cmd \<open>argc \<le> i + param_count a\<close> body
            have "y = Inl SignedOverflow" by simp
            then show ?thesis by (simp add: run_ok_def)
          next
            case False
            with \<open>i <s argc\<close> \<open>argv_at argv i = Some tok\<close> cmd \<open>argc \<le> i + param_count a\<close> body
            have "loop g call argc argv h ?j s (out @ [TooFew tok]) w = Some y" by simp
            then have "run_ok g argv h s (out @ [TooFew tok]) y" by (rule IH)
            then show ?thesis
            proof (rule run_ok_step)
              show "\<not> halting g argv h (TooFew tok)" by (simp add: halting_def)
              show "exit_code_rule g argv h s (TooFew tok # evs) rc"
                if "exit_code_rule g argv h s evs rc" for evs rc
                using that by (rule exit_code_rule_too_few)
            qed
          qed
        next
          case False
          obtain r w1 where c: "call (fn a) (Params_at argv i a) w = (r, w1)"
            by (cases "call (fn a) (Params_at argv i a) w")
          let ?ev = "Invoked (nat (sint i)) (fn a) (Params_at argv i a) r"
          from \<open>i <s argc\<close> \<open>argv_at argv i = Some tok\<close> cmd False c body
          have b: "(if \<not> r \<and> halt_on_fail a then Some (Inr (1, out @ [?ev], w1))
                    else if sint (i + param_count a) = 2 ^ 31 - 1 then Some (Inl SignedOverflow)
                    else loop g call argc argv h ?j (s \<and> r) (out @ [?ev]) w1) = Some y"
            by (auto simp: Let_def split: if_splits)
          show ?thesis
          proof (cases "\<not> r \<and> halt_on_fail a")
            case True
            with b have "y = Inr (1, out @ [?ev], w1)" by (simp split: if_splits)
            moreover have "exit_code_rule g argv h s [?ev] 1"
              using True by (simp add: exit_code_rule_stop)
            ultimately show ?thesis by (simp add: run_ok_stop)
          next
            case nostop: False
            show ?thesis
            proof (cases "sint (i + param_count a) = 2 ^ 31 - 1")
              case True
              with nostop b have "y = Inl SignedOverflow" by (simp split: if_splits)
              then show ?thesis by (simp add: run_ok_def)
            next
              case False
              with nostop b have "loop g call argc argv h ?j (s \<and> r) (out @ [?ev]) w1 = Some y"
                by (simp split: if_splits)
              then have "run_ok g argv h (s \<and> r) (out @ [?ev]) y" by (rule IH)
              then show ?thesis
              proof (rule run_ok_step)
                show "\<not> halting g argv h ?ev"
                  using nostop cmd tok by (simp add: halting_def)
                show "exit_code_rule g argv h s (?ev # evs) rc"
                  if "exit_code_rule g argv h (s \<and> r) evs rc" for evs rc
                  using that by (cases r) (simp_all add: exit_code_rule_ok exit_code_rule_failed)
              qed
            qed
          qed
        qed
      qed
    qed
  qed
qed

lemma Process_run_ok:
  assumes "Process g call argc argv h w = Some (Inr (rc, evs, w'))"
  shows "exit_code_rule g argv h True evs rc" and "halting_last g argv h evs"
  using Process_loop_partial [of g call argc argv h 1 True "[]" w "Inr (rc, evs, w')"] assms
  by (simp_all add: Process_def run_ok_def)

lemma halting_last_nth:
  assumes "halting_last g argv h evs" and "k < length evs" and "halting g argv h (evs ! k)"
  shows "Suc k = length evs"
proof (rule ccontr)
  assume "Suc k \<noteq> length evs"
  with assms(2) have k: "k < length (butlast evs)" by simp
  then have "butlast evs ! k = evs ! k" by (simp add: nth_butlast)
  moreover have "\<not> halting g argv h (butlast evs ! k)"
    using assms(1) k by (simp add: halting_last_def list_all_length)
  ultimately show False using assms(3) by simp
qed


subsection \<open>The loop with an index that does not wrap around\<close>







subsection \<open>A failing handler with halt_on_fail\<close>

text \<open>
  C3. When the loop calls the handler of a command whose \<^verbatim>\<open>halt_on_fail\<close> is set and
  the handler returns false, \<^verbatim>\<open>Process\<close> returns 1 there: the call is the last event and
  the world is as that handler left it. And in every run of \<^verbatim>\<open>Process\<close> that returns, a
  call that returned false for a command with \<^verbatim>\<open>halt_on_fail\<close> is the last event (each
  round of the loop looks one token up and writes one event, so no later token was
  looked up and no later handler ran) and the exit code is 1.
\<close>

theorem halt_on_fail_stops:
  "(i <s argc \<and> argv_at argv i = Some tok \<and> Command g tok = Some a
      \<and> \<not> argc \<le> i + param_count a
      \<and> call (fn a) (Params_at argv i a) w = (False, w') \<and> halt_on_fail a
    \<longrightarrow> Process_loop g call argc argv h i s out w
          = Some (Inr (1, out @ [Invoked (nat (sint i)) (fn a) (Params_at argv i a) False], w')))
   \<and> (Process g call argc argv h win = Some (Inr (rc, evs, wout))
      \<and> k < length evs \<and> evs ! k = Invoked n f ps False
      \<and> Command g (argv ! n) = Some b \<and> halt_on_fail b
    \<longrightarrow> rc = 1 \<and> Suc k = length evs)"
proof (intro conjI impI)
  assume a: "i <s argc \<and> argv_at argv i = Some tok \<and> Command g tok = Some a
      \<and> \<not> argc \<le> i + param_count a
      \<and> call (fn a) (Params_at argv i a) w = (False, w') \<and> halt_on_fail a"
  then have p: "i <s argc" "argv_at argv i = Some tok" "Command g tok = Some a"
    "\<not> argc \<le> i + param_count a" "call (fn a) (Params_at argv i a) w = (False, w')"
    by blast+
  have "Process_loop g call argc argv h i s out w =
         (if \<not> False \<and> halt_on_fail a
          then Some (Inr (1, out @ [Invoked (nat (sint i)) (fn a) (Params_at argv i a) False], w'))
          else if sint (i + param_count a) = 2 ^ 31 - 1 then Some (Inl SignedOverflow)
          else Process_loop g call argc argv h (i + param_count a + 1) (s \<and> False)
                 (out @ [Invoked (nat (sint i)) (fn a) (Params_at argv i a) False]) w')"
    using p by (rule step_call)
  with a show "Process_loop g call argc argv h i s out w
          = Some (Inr (1, out @ [Invoked (nat (sint i)) (fn a) (Params_at argv i a) False], w'))"
    by simp
next
  assume a: "Process g call argc argv h win = Some (Inr (rc, evs, wout))
      \<and> k < length evs \<and> evs ! k = Invoked n f ps False
      \<and> Command g (argv ! n) = Some b \<and> halt_on_fail b"
  then have run: "Process g call argc argv h win = Some (Inr (rc, evs, wout))" by simp
  from a have "Invoked n f ps False \<in> set evs" by (metis nth_mem)
  with Process_run_ok(1) [OF run] show "rc = 1"
    unfolding exit_code_rule_def by blast
  from a have "halting g argv h (evs ! k)" by (simp add: halting_def)
  with Process_run_ok(2) [OF run] a show "Suc k = length evs"
    by (simp add: halting_last_nth)
qed

theorem halt_on_fail_stops_witness:
  "Process readme_globals readme_call 3 [''app'', ''must-pass'', ''another-cmd''] False []
     = Some (Inr (1, [Invoked 1 run_must_pass \<lparr>m_params = None, m_param_count = 0\<rparr> False], []))
   \<and> Command readme_globals ([''app'', ''must-pass'', ''another-cmd''] ! 1)
     = Some \<lparr>fn = run_must_pass,
         doc = ''Running this command will stop processing further commands.'', param_count = 0,
         halt_on_fail = True\<rparr>
   \<and> Suc 0 = length [Invoked 1 run_must_pass \<lparr>m_params = None, m_param_count = 0\<rparr> False]"
proof -
  let ?argv = "[''app'', ''must-pass'', ''another-cmd'']"
  let ?a = "\<lparr>fn = run_must_pass,
         doc = ''Running this command will stop processing further commands.'', param_count = 0,
         halt_on_fail = True\<rparr>"
  let ?ps = "\<lparr>m_params = None, m_param_count = 0\<rparr>"
  note t = halt_on_fail_stops [where i = 1 and argc = 3 and argv = ?argv and tok = "''must-pass''"
      and g = readme_globals and a = ?a and call = readme_call and w = "[]" and w' = "[]"
      and h = False and s = True and out = "[]" and win = "[]" and rc = 1
      and evs = "[Invoked 1 run_must_pass ?ps False]" and wout = "[]" and k = 0 and n = 1
      and f = run_must_pass and ps = ?ps and b = ?a]
  have c: "Command readme_globals (?argv ! 1) = Some ?a"
    by (simp add: Command_def readme_Cmds readme_registered)
  have "Process_loop readme_globals readme_call 3 ?argv False 1 True [] []
          = Some (Inr (1, [] @ [Invoked (nat (sint (1 :: 32 word))) (fn ?a)
                                 (Params_at ?argv 1 ?a) False], []))"
    using t [THEN conjunct1] by (simp add: readme_eval)
  then have run: "Process readme_globals readme_call 3 ?argv False []
                    = Some (Inr (1, [Invoked 1 run_must_pass ?ps False], []))"
    by (simp add: Process_def Params_at_def)
  with t [THEN conjunct2] c show ?thesis by simp
qed

subsection \<open>An unrecognized token\<close>

text \<open>
  C4. At a token that is not in the registry the loop writes the message; with
  \<^verbatim>\<open>halt_on_unrecognized\<close> it returns 1 there, and without it goes on at the next index,
  one step ahead, with the success flag and the world unchanged. In every run that
  returns with \<^verbatim>\<open>halt_on_unrecognized\<close> set, an unrecognized token is the last event (no
  later token was looked up or run) and the exit code is 1; in every run that returns
  without it, the exit code is 1 exactly when some handler returned false, whatever
  tokens were unrecognized.
\<close>

theorem unrecognized_policy:
  "(i <s argc \<and> argv_at argv i = Some tok \<and> Command g tok = None
    \<longrightarrow> Process_loop g call argc argv h i s out w
          = (if h then Some (Inr (1, out @ [Unrecognized tok], w))
             else Process_loop g call argc argv h (i + 1) s (out @ [Unrecognized tok]) w)
        \<and> sint (i + 1) = sint i + 1)
   \<and> (Process g call argc argv True win = Some (Inr (rc, evs, wout))
      \<and> k < length evs \<and> evs ! k = Unrecognized tok'
    \<longrightarrow> rc = 1 \<and> Suc k = length evs)
   \<and> (Process g call argc argv False win = Some (Inr (rc', evs', wout'))
    \<longrightarrow> (rc' = 0 \<or> rc' = 1) \<and> (rc' = 1 \<longleftrightarrow> (\<exists>n f ps. Invoked n f ps False \<in> set evs')))"
proof (intro conjI impI)
  assume a: "i <s argc \<and> argv_at argv i = Some tok \<and> Command g tok = None"
  then have "sint i < sint argc" by (simp add: word_sless_alt)
  then show "sint (i + 1) = sint i + 1"
    using sint_bounds(2) [of argc] by (intro sint_succ) simp
  from a show "Process_loop g call argc argv h i s out w
          = (if h then Some (Inr (1, out @ [Unrecognized tok], w))
             else Process_loop g call argc argv h (i + 1) s (out @ [Unrecognized tok]) w)"
    by (simp add: step_unrecognized)
next
  assume a: "Process g call argc argv True win = Some (Inr (rc, evs, wout))
      \<and> k < length evs \<and> evs ! k = Unrecognized tok'"
  then have run: "Process g call argc argv True win = Some (Inr (rc, evs, wout))" by simp
  from a have "Unrecognized tok' \<in> set evs" by (metis nth_mem)
  with Process_run_ok(1) [OF run] show "rc = 1"
    unfolding exit_code_rule_def by blast
  from a have "halting g argv True (evs ! k)" by (simp add: halting_def)
  with Process_run_ok(2) [OF run] a show "Suc k = length evs"
    by (simp add: halting_last_nth)
next
  assume run: "Process g call argc argv False win = Some (Inr (rc', evs', wout'))"
  from Process_run_ok(1) [OF run] show "rc' = 0 \<or> rc' = 1"
    unfolding exit_code_rule_def by blast
  from Process_run_ok(1) [OF run] show "rc' = 1 \<longleftrightarrow> (\<exists>n f ps. Invoked n f ps False \<in> set evs')"
    unfolding exit_code_rule_def by blast
qed

theorem unrecognized_policy_witness:
  "Process readme_globals readme_call 3 [''app'', ''bogus'', ''version''] True []
     = Some (Inr (1, [Unrecognized ''bogus''], []))
   \<and> Process readme_globals readme_call 3 [''app'', ''bogus'', ''version''] False []
     = Some (Inr (0, [Unrecognized ''bogus'',
                      Invoked 2 run_version \<lparr>m_params = None, m_param_count = 0\<rparr> True],
                 [Line ''cmd-test 1.0'']))
   \<and> Suc 0 = length [Unrecognized ''bogus'' :: handler event]"
proof -
  let ?argv = "[''app'', ''bogus'', ''version'']"
  let ?ps = "\<lparr>m_params = None, m_param_count = 0\<rparr>"
  let ?evs = "[Unrecognized ''bogus'', Invoked 2 run_version ?ps True]"
  have pre: "(1 :: 32 word) <s 3 \<and> argv_at ?argv 1 = Some ''bogus''
             \<and> Command readme_globals ''bogus'' = None"
    by (simp add: readme_eval)
  have next_round: "Process_loop readme_globals readme_call 3 ?argv False (1 + 1) True
                      ([] @ [Unrecognized ''bogus'']) []
                    = Some (Inr (0, ?evs, [Line ''cmd-test 1.0'']))"
    by (simp add: Process_loop.simps readme_eval version_line_def readme_Information)
  note halt = unrecognized_policy [where i = 1 and argc = 3 and argv = ?argv and tok = "''bogus''"
      and g = readme_globals and call = readme_call and h = True and s = True and out = "[]"
      and w = "[]" and win = "[]" and rc = 1 and evs = "[Unrecognized ''bogus'']" and wout = "[]"
      and k = 0 and tok' = "''bogus''"]
  note skip = unrecognized_policy [where i = 1 and argc = 3 and argv = ?argv and tok = "''bogus''"
      and g = readme_globals and call = readme_call and h = False and s = True and out = "[]"
      and w = "[]" and win = "[]" and rc' = 0 and evs' = ?evs
      and wout' = "[Line ''cmd-test 1.0'']"]
  have 1: "Process readme_globals readme_call 3 ?argv True []
             = Some (Inr (1, [Unrecognized ''bogus''], []))"
    using halt [THEN conjunct1] pre by (simp add: Process_def)
  have 2: "Process readme_globals readme_call 3 ?argv False [] = Some (Inr (0, ?evs, [Line ''cmd-test 1.0'']))"
    using skip [THEN conjunct1] pre next_round by (simp add: Process_def)
  from 1 2 halt [THEN conjunct2, THEN conjunct1] skip [THEN conjunct2, THEN conjunct2]
  show ?thesis by simp
qed

subsection \<open>The exit code\<close>







section \<open>Parameter views\<close>

text \<open>
  The views the loop hands to a handler: where \<open>argv\<close> holds \<^verbatim>\<open>argc\<close> strings and the
  index arithmetic stays in range, a view with a count above 0 points into \<open>argv\<close> just
  after the command and has at least that count of strings.
\<close>

lemma Params_at_holds_count:
  assumes "i <s argc" and "0 \<le> sint i" and "sint argc \<le> int (length argv)"
    and "\<not> argc \<le> i + param_count a" and "sint i + uint (param_count a) < 2 ^ 31"
    and "0 < param_count a"
  shows "m_params (Params_at argv i a) = Some (drop (nat (sint i) + 1) argv)"
    and "unat (m_param_count (Params_at argv i a)) \<le> length (drop (nat (sint i) + 1) argv)"
proof -
  show "m_params (Params_at argv i a) = Some (drop (nat (sint i) + 1) argv)"
    using assms(6) by (simp add: Params_at_def)
  have lt: "sint i < sint argc" using assms(1) by (simp add: word_sless_alt)
  have "uint argc = sint argc"
    using assms(2) lt by (intro uint_of_nonneg) simp
  moreover have "uint (i + param_count a) = sint i + uint (param_count a)"
    using assms(2,5) by (rule sint_add_small(1))
  moreover have "uint (i + param_count a) < uint argc"
    using assms(4) by (simp add: word_le_def)
  ultimately have "sint i + uint (param_count a) < int (length argv)"
    using assms(3) by simp
  moreover have "int (nat (sint i)) = sint i" using assms(2) by simp
  moreover have "int (unat (param_count a)) = uint (param_count a)" by simp
  ultimately have "int (nat (sint i) + unat (param_count a)) < int (length argv)"
    by (simp only: of_nat_add)
  then have "nat (sint i) + unat (param_count a) < length argv"
    by (simp only: of_nat_less_iff)
  then show "unat (m_param_count (Params_at argv i a)) \<le> length (drop (nat (sint i) + 1) argv)"
    by (simp add: Params_at_def)
qed

text \<open>
  C8. For a view of count \<open>n\<close> over a slice that holds at least \<open>n\<close> strings, an index
  below \<open>n\<close> gives the string at that position of the slice, and an index of \<open>n\<close> or more
  gives the parameter that wraps the null pointer, whatever the view is.
\<close>

theorem Params_index:
  "(i < m_param_count ps \<and> m_params ps = Some xs \<and> unat (m_param_count ps) \<le> length xs
      \<longrightarrow> index ps i = Inr (Param (Some (xs ! unat i))))
   \<and> (m_param_count ps \<le> i \<longrightarrow> index ps i = Inr (Param None))"
proof -
  have "unat i < length xs"
    if "i < m_param_count ps" "unat (m_param_count ps) \<le> length xs"
    using that by (simp add: word_less_nat_alt)
  then show ?thesis
    by (auto simp: index_def)
qed

theorem Params_index_witness:
  "index (Params_at [''app'', ''add-two-values'', ''13'', ''15''] 1
            \<lparr>fn = run_add_two_values, doc = [], param_count = 2, halt_on_fail = False\<rparr>) 1
     = Inr (Param (Some ''15''))
   \<and> index (Params_at [''app'', ''add-two-values'', ''13'', ''15''] 1
            \<lparr>fn = run_add_two_values, doc = [], param_count = 2, halt_on_fail = False\<rparr>) 2
     = Inr (Param None)"
  using Params_index [of 1 "Params_at [''app'', ''add-two-values'', ''13'', ''15''] 1
            \<lparr>fn = run_add_two_values, doc = [], param_count = 2, halt_on_fail = False\<rparr>"
            "[''13'', ''15'']"]
    Params_index [of 2 "Params_at [''app'', ''add-two-values'', ''13'', ''15''] 1
            \<lparr>fn = run_add_two_values, doc = [], param_count = 2, halt_on_fail = False\<rparr>"
            "[''13'', ''15'']"]
  by (simp add: Params_at_def)

section \<open>Conversions\<close>

subsection \<open>Runs of characters\<close>











subsection \<open>Integers\<close>




subsection \<open>Floating-point numbers\<close>











subsection \<open>The result of a conversion\<close>

text \<open>A conversion whose result is true has stored a value.\<close>

lemma Param_Int_stored:
  "Param_Int p = Inr q \<Longrightarrow> result q \<Longrightarrow> val q \<noteq> None"
  by (auto simp: Param_Int_def split: option.splits extraction.splits if_splits)




end
